theory Spec2Isabelle
  imports Main "HOL-Library.Sublist"
begin

section \<open>Environment configuration (config/env)\<close>

text \<open>
  The process environment as the configuration module reads it: the two variables
  \<^verbatim>\<open>LOG_LEVEL\<close> and \<^verbatim>\<open>ENABLE_DEBUG\<close>, each unset (\<open>None\<close>) or set to a string.
\<close>

record process_env =
  LOG_LEVEL :: "string option"
  ENABLE_DEBUG :: "string option"

text \<open>
  \<^verbatim>\<open>interface DebuggingConfig { logLevel: ...; enableDebug: boolean }\<close>.
  The interface restricts \<^verbatim>\<open>logLevel\<close> to the seven names, but the value is produced by
  a cast (\<^verbatim>\<open>process.env.LOG_LEVEL as DebuggingConfig["logLevel"]\<close>), which checks nothing
  at run time: the field holds whatever string the variable holds.
\<close>

record DebuggingConfig =
  logLevel :: string
  enableDebug :: bool

record EnvConfig =
  debugging :: DebuggingConfig

text \<open>JavaScript's \<^verbatim>\<open>a || b\<close> on an optional string: \<^verbatim>\<open>undefined\<close> and \<^verbatim>\<open>""\<close> are falsy.\<close>

definition js_or :: "string option \<Rightarrow> string \<Rightarrow> string" where
  "js_or a b = (case a of None \<Rightarrow> b | Some s \<Rightarrow> if s = [] then b else s)"

text \<open>
  \<^verbatim>\<open>logLevel: (process.env.LOG_LEVEL as ...) || "silly"\<close>,
  \<^verbatim>\<open>enableDebug: process.env.ENABLE_DEBUG !== "false"\<close>.
\<close>

definition env :: "process_env \<Rightarrow> EnvConfig" where
  "env pe =
     \<lparr> debugging =
         \<lparr> logLevel = js_or (LOG_LEVEL pe) ''silly'',
           enableDebug = (ENABLE_DEBUG pe \<noteq> Some ''false'') \<rparr> \<rparr>"

section \<open>Severity levels\<close>

text \<open>\<^verbatim>\<open>type LogLevel = "error" | "warn" | "info" | "http" | "verbose" | "debug" | "silly"\<close>\<close>

datatype LogLevel = Error | Warn | Info | Http | Verbose | Debug | Silly

fun level_name :: "LogLevel \<Rightarrow> string" where
  "level_name Error = ''error''"
| "level_name Warn = ''warn''"
| "level_name Info = ''info''"
| "level_name Http = ''http''"
| "level_name Verbose = ''verbose''"
| "level_name Debug = ''debug''"
| "level_name Silly = ''silly''"

text \<open>\<^verbatim>\<open>const fileNameLogLevels: LogLevel[] = ["error", "warn", "info", "http", "verbose", "debug", "silly"]\<close>\<close>

definition fileNameLogLevels :: "string list" where
  "fileNameLogLevels = [''error'', ''warn'', ''info'', ''http'', ''verbose'', ''debug'', ''silly'']"

text \<open>
  The position of a severity in the ordering
  \<open>error > warn > info > http > verbose > debug > silly\<close>: \<open>0\<close> is the most severe.
\<close>

fun severity_rank :: "LogLevel \<Rightarrow> nat" where
  "severity_rank Error = 0"
| "severity_rank Warn = 1"
| "severity_rank Info = 2"
| "severity_rank Http = 3"
| "severity_rank Verbose = 4"
| "severity_rank Debug = 5"
| "severity_rank Silly = 6"

section \<open>Caller-file resolution\<close>

text \<open>\<^verbatim>\<open>String.prototype.includes\<close>: the needle occurs as a contiguous substring.\<close>

fun str_includes :: "string \<Rightarrow> string \<Rightarrow> bool" where
  "str_includes [] needle = (needle = [])"
| "str_includes (c # cs) needle = (prefix needle (c # cs) \<or> str_includes cs needle)"

text \<open>
  A frame of \<^verbatim>\<open>stack-trace\<close>: \<^verbatim>\<open>getFileName()\<close> returns a string or \<^verbatim>\<open>null\<close>.
  A trace is an array whose entries may be missing (\<^verbatim>\<open>if (!frame) continue\<close>), the
  innermost frame first.
\<close>

record StackFrame =
  fileName :: "string option"

type_synonym trace = "StackFrame option list"

text \<open>
  \<^verbatim>\<open>getCallerFile\<close>. The loop over \<^verbatim>\<open>trace\<close> is the recursion on the list;
  \<^verbatim>\<open>path.relative\<close> of Node is the parameter \<open>rel\<close> and \<^verbatim>\<open>process.cwd()\<close> the
  parameter \<open>cwd\<close>. A string is truthy when it is not empty.
\<close>

fun getCallerFile :: "(string \<Rightarrow> string \<Rightarrow> string) \<Rightarrow> string \<Rightarrow> trace \<Rightarrow> string" where
  "getCallerFile rel cwd [] = ''unknown file path''"
| "getCallerFile rel cwd (None # tr) = getCallerFile rel cwd tr"
| "getCallerFile rel cwd (Some frame # tr) =
     (case fileName frame of
        None \<Rightarrow> getCallerFile rel cwd tr
      | Some fn \<Rightarrow>
          if fn \<noteq> [] \<and> \<not> str_includes fn ''node_modules'' \<and> \<not> str_includes fn ''util/logger''
          then rel cwd fn
          else getCallerFile rel cwd tr)"

text \<open>
  The three tests of the loop, named: the file name mentions \<^verbatim>\<open>node_modules\<close>, the file
  name mentions \<^verbatim>\<open>util/logger\<close> (both anywhere in the string, as \<^verbatim>\<open>includes\<close> tests
  it), and the frame is present with a non-empty file name. A frame is accepted when it
  has such a file name and the name mentions neither.
\<close>

definition mentions_node_modules :: "string \<Rightarrow> bool" where
  "mentions_node_modules fn = str_includes fn ''node_modules''"

definition mentions_util_logger :: "string \<Rightarrow> bool" where
  "mentions_util_logger fn = str_includes fn ''util/logger''"



section \<open>Node's path.relative on POSIX\<close>

text \<open>
  Modelled from the spec: \<^verbatim>\<open>path.relative\<close> is Node's (a platform library, not part of
  the repository); the spec has it give a file's path relative to the working directory.
  The details follow Node's documentation, for POSIX paths: both arguments are resolved
  to absolute paths against the working directory of the process, \<^verbatim>\<open>.\<close> and empty
  segments are dropped, \<^verbatim>\<open>..\<close> removes the segment before it, and the result climbs
  with \<^verbatim>\<open>..\<close> out of what is left of \<open>from\<close> after the common prefix and descends into
  what is left of \<open>to\<close>. When both resolve to the same path the result is the empty
  string.
\<close>

fun split_path :: "string \<Rightarrow> string list" where
  "split_path [] = [[]]"
| "split_path (c # cs) =
     (if c = CHR ''/'' then [] # split_path cs
      else (case split_path cs of [] \<Rightarrow> [[c]] | seg # segs \<Rightarrow> (c # seg) # segs))"

fun normalize_segments :: "string list \<Rightarrow> string list \<Rightarrow> string list" where
  "normalize_segments acc [] = acc"
| "normalize_segments acc (seg # segs) =
     (if seg = [] \<or> seg = ''.'' then normalize_segments acc segs
      else if seg = ''..'' then normalize_segments (butlast acc) segs
      else normalize_segments (acc @ [seg]) segs)"

definition posix_resolve :: "string \<Rightarrow> string \<Rightarrow> string list" where
  "posix_resolve pcwd p =
     (if prefix ''/'' p then normalize_segments [] (split_path p)
      else normalize_segments [] (split_path pcwd @ split_path p))"

fun drop_common :: "string list \<Rightarrow> string list \<Rightarrow> string list \<times> string list" where
  "drop_common (a # as) (b # bs) = (if a = b then drop_common as bs else (a # as, b # bs))"
| "drop_common as bs = (as, bs)"

fun join_path :: "string list \<Rightarrow> string" where
  "join_path [] = []"
| "join_path [seg] = seg"
| "join_path (seg # segs) = seg @ ''/'' @ join_path segs"

definition posix_relative :: "string \<Rightarrow> string \<Rightarrow> string \<Rightarrow> string" where
  "posix_relative pcwd from_path to_path =
     (case drop_common (posix_resolve pcwd from_path) (posix_resolve pcwd to_path) of
        (ups, downs) \<Rightarrow> join_path (replicate (length ups) ''..'' @ downs))"

section \<open>The caller frame in the specification's words\<close>




section \<open>Timestamps\<close>

text \<open>
  The wall clock as the formatter reads it: the calendar fields of the current local
  time (the month counted from 1).
\<close>

record clock =
  year :: nat
  month :: nat
  day :: nat
  hour :: nat
  minute :: nat
  second :: nat

definition digit_char :: "nat \<Rightarrow> char" where
  "digit_char n = ''0123456789'' ! (n mod 10)"

function show_nat :: "nat \<Rightarrow> string" where
  "show_nat n = (if n < 10 then [digit_char n] else show_nat (n div 10) @ [digit_char n])"
  by pat_completeness auto
termination
  by (relation "measure id") auto

declare show_nat.simps [simp del]

text \<open>Zero-padding on the left up to a minimal width; longer numbers are kept whole.\<close>

definition pad :: "nat \<Rightarrow> nat \<Rightarrow> string" where
  "pad val len = (let s = show_nat val in replicate (len - length s) (CHR ''0'') @ s)"

text \<open>
  Modelled from the spec: \<^verbatim>\<open>format.timestamp({ format: "YYYY-MM-DD HH:mm:ss" })\<close> is
  winston's (a third-party library, not part of the repository); the spec has it render
  the instant of the call with the fixed pattern \<^verbatim>\<open>YYYY-MM-DD HH:mm:ss\<close>: the year on
  four digits, the other fields on two, zero-padded.
\<close>

definition format_timestamp :: "clock \<Rightarrow> string" where
  "format_timestamp c =
     pad (year c) 4 @ ''-'' @ pad (month c) 2 @ ''-'' @ pad (day c) 2 @ '' '' @
     pad (hour c) 2 @ '':'' @ pad (minute c) 2 @ '':'' @ pad (second c) 2"

section \<open>The formatter (format.printf)\<close>

definition ESC :: char where
  "ESC = CHR 0x1B"

text \<open>\<^verbatim>\<open>String.prototype.toUpperCase\<close> on the ASCII letters.\<close>

definition upper_char :: "char \<Rightarrow> char" where
  "upper_char c =
     (case map_of (zip ''abcdefghijklmnopqrstuvwxyz'' ''ABCDEFGHIJKLMNOPQRSTUVWXYZ'') c of
        None \<Rightarrow> c
      | Some u \<Rightarrow> u)"

definition toUpperCase :: "string \<Rightarrow> string" where
  "toUpperCase s = map upper_char s"

text \<open>The record the formatter receives: \<^verbatim>\<open>info.timestamp\<close>, \<^verbatim>\<open>info.level\<close>, \<^verbatim>\<open>info.message\<close>.\<close>

record info =
  timestamp :: "string option"
  level :: string
  message :: string

text \<open>What Node provides to the module: \<^verbatim>\<open>path.relative\<close> and \<^verbatim>\<open>process.cwd()\<close>.\<close>

record runtime =
  path_relative :: "string \<Rightarrow> string \<Rightarrow> string"
  process_cwd :: string

text \<open>
  The function given to \<^verbatim>\<open>format.printf\<close>. \<open>shouldLog\<close> is the module constant
  \<^verbatim>\<open>shouldLogFileName\<close>, \<open>tr\<close> the call stack that \<^verbatim>\<open>stackTrace.get()\<close> sees when
  the formatter runs. The \<^verbatim>\<open>switch\<close> over the level follows the source's cases; an
  empty \<^verbatim>\<open>fileName\<close> is falsy, like \<^verbatim>\<open>null\<close>.
\<close>

definition printf :: "runtime \<Rightarrow> bool \<Rightarrow> trace \<Rightarrow> info \<Rightarrow> string" where
  "printf rt shouldLog tr i =
     (let timestamp = js_or (timestamp i) [];
          level = info.level i;
          message = message i;
          coloredLevel = toUpperCase level;
          coloredLevel =
            (if level = ''error'' then ESC # ''[31m'' @ coloredLevel @ ESC # ''[0m''
             else if level = ''warn'' then ESC # ''[33m'' @ coloredLevel @ ESC # ''[0m''
             else if level = ''info'' then ESC # ''[32m'' @ coloredLevel @ ESC # ''[0m''
             else if level = ''http'' then ESC # ''[36m'' @ coloredLevel @ ESC # ''[0m''
             else if level = ''debug'' then ESC # ''[34m'' @ coloredLevel @ ESC # ''[0m''
             else if level = ''verbose'' \<or> level = ''silly''
               then ESC # ''[90m'' @ coloredLevel @ ESC # ''[0m''
             else coloredLevel);
          fileName =
            (if shouldLog
             then Some (getCallerFile (path_relative rt) (process_cwd rt) tr)
             else None);
          coloredFileName =
            (case fileName of
               None \<Rightarrow> []
             | Some fn \<Rightarrow> if fn = [] then [] else ESC # ''[35m['' @ fn @ '']'' @ ESC # ''[0m'')
      in timestamp @ '' ['' @ coloredLevel @ '']'' @ coloredFileName @ '': '' @ message)"

section \<open>The logger instance\<close>

text \<open>
  A console transport with its \<^verbatim>\<open>silent\<close> flag, and the logger with its \<^verbatim>\<open>level\<close> and
  its transports.
\<close>

record Transport =
  silent :: bool

record Logger =
  level :: string
  transports :: "Transport list"

text \<open>
  Modelled from the spec: winston (a third-party library, not part of the repository)
  ranks the seven names in the order \<open>error > warn > info > http > verbose > debug >
  silly\<close>; a string that is none of them has no rank.
\<close>

definition npm_levels :: "string \<Rightarrow> nat option" where
  "npm_levels name =
     map_of [(''error'', 0), (''warn'', 1), (''info'', 2), (''http'', 3),
             (''verbose'', 4), (''debug'', 5), (''silly'', 6)] name"

text \<open>
  Modelled from the spec: the write of one transport, winston's. A silent transport
  writes nothing, whatever the level (the kill switch comes first). Otherwise the line
  is written when the record's level is at least as severe as the logger's level, and
  dropped when it is less severe. A logger level that names no severity has no rank to
  compare with, and nothing passes it.
\<close>

definition transport_write :: "string \<Rightarrow> Transport \<Rightarrow> string \<Rightarrow> string \<Rightarrow> string list" where
  "transport_write threshold t lvl line =
     (if silent t then []
      else (case (npm_levels threshold, npm_levels lvl) of
              (Some a, Some b) \<Rightarrow> if b \<le> a then [line] else []
            | _ \<Rightarrow> []))"

text \<open>
  Modelled from the spec: \<^verbatim>\<open>createLogger\<close> of winston with the options of the source,
  \<^verbatim>\<open>level\<close> and one \<^verbatim>\<open>new transports.Console()\<close>, which starts out not silent.
\<close>

definition createLogger :: "string \<Rightarrow> Logger" where
  "createLogger lvl = \<lparr> level = lvl, transports = [\<lparr> silent = False \<rparr>] \<rparr>"

text \<open>The module's state: the constant \<^verbatim>\<open>shouldLogFileName\<close> and the exported \<^verbatim>\<open>logger\<close>.\<close>

record LoggerModule =
  shouldLogFileName :: bool
  logger :: Logger

text \<open>
  The top level of the module up to the first log call:
  \<^verbatim>\<open>shouldLogFileName = fileNameLogLevels.includes(env.debugging.logLevel)\<close>,
  \<^verbatim>\<open>createLogger({ level: env.debugging.logLevel || "info", ... })\<close>, and
  \<^verbatim>\<open>if (!env.debugging.enableDebug) logger.transports.forEach(t => t.silent = true)\<close>.
\<close>

definition silence :: "Logger \<Rightarrow> Logger" where
  "silence lg = lg \<lparr> transports := map (\<lambda>t. t \<lparr> silent := True \<rparr>) (transports lg) \<rparr>"

definition init_module :: "EnvConfig \<Rightarrow> LoggerModule" where
  "init_module e =
     (let lg = createLogger (js_or (Some (logLevel (debugging e))) ''info'')
      in \<lparr> shouldLogFileName = (logLevel (debugging e) \<in> set fileNameLogLevels),
           logger = (if \<not> enableDebug (debugging e) then silence lg else lg) \<rparr>)"

text \<open>What one call observes: the time and the call stack at the moment the line is formatted.\<close>

record moment =
  now :: clock
  stack :: trace

text \<open>
  One of the seven operations \<^verbatim>\<open>logger.error\<close> ... \<^verbatim>\<open>logger.silly\<close> on a message: the
  record is stamped, formatted by \<open>printf\<close> and handed to every transport. The result
  is the list of lines that reach the console.
\<close>

definition logger_log :: "runtime \<Rightarrow> LoggerModule \<Rightarrow> moment \<Rightarrow> LogLevel \<Rightarrow> string \<Rightarrow> string list" where
  "logger_log rt m mo lvl msg =
     (let i = \<lparr> timestamp = Some (format_timestamp (now mo)),
                level = level_name lvl, message = msg \<rparr>;
          line = printf rt (shouldLogFileName m) (stack mo) i
      in concat (map (\<lambda>t. transport_write (Logger.level (logger m)) t (level_name lvl) line)
                     (transports (logger m))))"

text \<open>
  Loading the module: the state is built from the environment, then
  \<^verbatim>\<open>logger.info("Logger initialized successfully")\<close> runs. The result is the module's
  state and what that call wrote.
\<close>

definition load_module :: "runtime \<Rightarrow> process_env \<Rightarrow> moment \<Rightarrow> LoggerModule \<times> string list" where
  "load_module rt pe mo =
     (let m = init_module (env pe)
      in (m, logger_log rt m mo Info ''Logger initialized successfully''))"

text \<open>
  A run of the process after loading: the calls made on the logger, in order. Each step
  hands on the module's state and appends what the call wrote.
\<close>

type_synonym log_call = "moment \<times> LogLevel \<times> string"

fun log_step :: "runtime \<Rightarrow> LoggerModule \<times> string list \<Rightarrow> log_call \<Rightarrow> LoggerModule \<times> string list" where
  "log_step rt (m, out) (mo, lvl, msg) = (m, out @ logger_log rt m mo lvl msg)"

definition run_calls :: "runtime \<Rightarrow> LoggerModule \<Rightarrow> log_call list \<Rightarrow> LoggerModule \<times> string list" where
  "run_calls rt m calls = foldl (log_step rt) (m, []) calls"

section \<open>Stripping colour codes\<close>

text \<open>
  A colour code is \<open>ESC [\<close>, decimal digits, \<open>m\<close>. \<open>sgr_params\<close> reads the digits and
  the final \<open>m\<close> and returns what follows; \<open>strip_ansi\<close> removes every colour code.
\<close>

definition is_digit :: "char \<Rightarrow> bool" where
  "is_digit c = (c \<in> set ''0123456789'')"

fun sgr_params :: "string \<Rightarrow> string option" where
  "sgr_params [] = None"
| "sgr_params (c # cs) =
     (if c = CHR ''m'' then Some cs else if is_digit c then sgr_params cs else None)"

fun sgr_code :: "string \<Rightarrow> string option" where
  "sgr_code (a # b # cs) = (if a = ESC \<and> b = CHR ''['' then sgr_params cs else None)"
| "sgr_code cs = None"

function strip_ansi :: "string \<Rightarrow> string" where
  "strip_ansi [] = []"
| "strip_ansi (c # cs) =
     (case sgr_code (c # cs) of
        Some rest \<Rightarrow> strip_ansi rest
      | None \<Rightarrow> c # strip_ansi cs)"
  by pat_completeness auto
termination
proof (relation "measure length")
  show "wf (measure length)"
    by simp
  show "(rest, c # cs) \<in> measure length" if code: "sgr_code (c # cs) = Some rest"
    for c :: char and cs rest :: string
  proof -
    have params: "sgr_params xs = Some ys \<Longrightarrow> length ys < length xs" for xs ys
      by (induction xs) (auto split: if_splits)
    from code have "length rest < length (c # cs)"
      by (cases cs) (auto split: if_splits dest: params)
    then show ?thesis
      by simp
  qed
  show "(cs, c # cs) \<in> measure length" for c :: char and cs :: string
    by simp
qed

section \<open>The shape of a line\<close>

text \<open>
  The colour the formatter's \<^verbatim>\<open>switch\<close> selects for each of the seven levels: red,
  yellow, green, cyan, gray, blue, gray.
\<close>

fun level_colour :: "LogLevel \<Rightarrow> string" where
  "level_colour Error = ''31''"
| "level_colour Warn = ''33''"
| "level_colour Info = ''32''"
| "level_colour Http = ''36''"
| "level_colour Verbose = ''90''"
| "level_colour Debug = ''34''"
| "level_colour Silly = ''90''"

text \<open>
  The pattern \<^verbatim>\<open>YYYY-MM-DD HH:mm:ss\<close> as a shape: a digit where the model string has
  \<open>d\<close>, the separator itself elsewhere.
\<close>

definition pattern_char :: "char \<Rightarrow> char \<Rightarrow> bool" where
  "pattern_char c p = (if p = CHR ''d'' then is_digit c else c = p)"

definition timestamp_pattern :: "string \<Rightarrow> bool" where
  "timestamp_pattern s = list_all2 pattern_char s ''dddd-dd-dd dd:dd:dd''"

text \<open>A clock reading of the calendar, with a year of at most four digits.\<close>

definition calendar_clock :: "clock \<Rightarrow> bool" where
  "calendar_clock c =
     (year c \<le> 9999 \<and> 1 \<le> month c \<and> month c \<le> 12 \<and> 1 \<le> day c \<and> day c \<le> 31 \<and>
      hour c < 24 \<and> minute c < 60 \<and> second c < 60)"

section \<open>Sample inputs\<close>

text \<open>Node on POSIX, started in directory \<open>d\<close>.\<close>

definition posix_runtime :: "string \<Rightarrow> runtime" where
  "posix_runtime d = \<lparr> path_relative = posix_relative d, process_cwd = d \<rparr>"

text \<open>
  The stack a route handler's call produces: the formatter in the logger's own file, a
  missing entry, a frame without file name, winston's frames, then the handler.
\<close>

definition route_stack :: trace where
  "route_stack =
     [Some \<lparr> fileName = Some ''/srv/app/dist/util/logger.js'' \<rparr>,
      None,
      Some \<lparr> fileName = None \<rparr>,
      Some \<lparr> fileName = Some ''/srv/app/node_modules/winston/lib/winston/logger.js'' \<rparr>,
      Some \<lparr> fileName = Some ''/srv/app/dist/routes/root.js'' \<rparr>,
      Some \<lparr> fileName = Some ''/srv/app/dist/app.js'' \<rparr>]"

definition route_moment :: moment where
  "route_moment =
     \<lparr> now = \<lparr> year = 2026, month = 11, day = 3, hour = 9, minute = 5, second = 0 \<rparr>,
       stack = route_stack \<rparr>"

text \<open>
  A stack whose first frame outside the logger carries the working directory itself as
  its file name, and a stack where a route's own file is called
  \<^verbatim>\<open>node_modules_report.js\<close>.
\<close>

definition cwd_stack :: trace where
  "cwd_stack =
     [Some \<lparr> fileName = Some ''/srv/app/dist/util/logger.js'' \<rparr>,
      Some \<lparr> fileName = Some ''/srv/app'' \<rparr>]"

definition cwd_moment :: moment where
  "cwd_moment =
     \<lparr> now = \<lparr> year = 2026, month = 11, day = 3, hour = 9, minute = 5, second = 0 \<rparr>,
       stack = cwd_stack \<rparr>"


section \<open>Properties of the caller-file resolution\<close>

lemma str_includes_sublist: "str_includes s needle = sublist needle s"
  by (induction s) (auto simp: sublist_Cons_right)






text \<open>
  Whatever the trace, the result is the fallback or the relative path of a frame of the
  trace that passed the three tests.
\<close>

lemma getCallerFile_cases:
  "getCallerFile rel cwd tr = ''unknown file path'' \<or>
   (\<exists>fr fn. Some fr \<in> set tr \<and> fileName fr = Some fn \<and> fn \<noteq> [] \<and>
      \<not> mentions_node_modules fn \<and> \<not> mentions_util_logger fn \<and> getCallerFile rel cwd tr = rel cwd fn)"
proof (induction rel cwd tr rule: getCallerFile.induct)
  case (1 rel cwd)
  then show ?case by simp
next
  case (2 rel cwd tr)
  then show ?case by auto
next
  case (3 rel cwd frame tr)
  show ?case
  proof (cases "fileName frame")
    case None
    with 3 show ?thesis by auto
  next
    case (Some fn)
    show ?thesis
    proof (cases "fn \<noteq> [] \<and> \<not> str_includes fn ''node_modules'' \<and> \<not> str_includes fn ''util/logger''")
      case True
      with Some show ?thesis
        by (auto simp: mentions_node_modules_def mentions_util_logger_def)
    next
      case False
      with Some 3(2) [of fn] show ?thesis by auto
    qed
  qed
qed

text \<open>
  C10 (as amended). The resolution is total: on every trace, also one with missing frames
  or with frames whose file name is \<^verbatim>\<open>null\<close>, it skips those frames and returns a
  string, which is exactly \<^verbatim>\<open>unknown file path\<close> or \<^verbatim>\<open>path.relative\<close> of the working
  directory and the file name of a frame of the trace; there is no failing branch. The
  result is empty only when \<^verbatim>\<open>path.relative\<close> returned the empty string for such a
  file name.
\<close>

theorem getCallerFile_total:
  "getCallerFile rel cwd (None # tr) = getCallerFile rel cwd tr \<and>
   getCallerFile rel cwd (Some \<lparr>fileName = None\<rparr> # tr) = getCallerFile rel cwd tr \<and>
   (getCallerFile rel cwd tr = ''unknown file path'' \<or>
    (\<exists>fr fn. Some fr \<in> set tr \<and> fileName fr = Some fn \<and> fn \<noteq> [] \<and>
       \<not> mentions_node_modules fn \<and> \<not> mentions_util_logger fn \<and>
       getCallerFile rel cwd tr = rel cwd fn)) \<and>
   (getCallerFile rel cwd tr = [] \<longrightarrow>
    (\<exists>fr fn. Some fr \<in> set tr \<and> fileName fr = Some fn \<and> fn \<noteq> [] \<and> rel cwd fn = []))"
proof -
  have shape: "getCallerFile rel cwd tr = ''unknown file path'' \<or>
   (\<exists>fr fn. Some fr \<in> set tr \<and> fileName fr = Some fn \<and> fn \<noteq> [] \<and>
      \<not> mentions_node_modules fn \<and> \<not> mentions_util_logger fn \<and> getCallerFile rel cwd tr = rel cwd fn)"
    by (rule getCallerFile_cases)
  have "\<exists>fr fn. Some fr \<in> set tr \<and> fileName fr = Some fn \<and> fn \<noteq> [] \<and> rel cwd fn = []"
    if "getCallerFile rel cwd tr = []"
    using shape that by auto
  with shape show ?thesis by simp
qed

theorem getCallerFile_total_witness:
  "getCallerFile (posix_relative ''/srv/app'') ''/srv/app''
     [None, Some \<lparr>fileName = None\<rparr>, Some \<lparr>fileName = Some ''/srv/app/dist/routes/root.js''\<rparr>]
     = ''dist/routes/root.js'' \<and>
   getCallerFile (posix_relative ''/srv/app'') ''/srv/app'' [Some \<lparr>fileName = Some ''.''\<rparr>] = [] \<and>
   (\<exists>fr fn. Some fr \<in> set [Some \<lparr>fileName = Some ''.''\<rparr>] \<and> fileName fr = Some fn \<and>
      fn \<noteq> [] \<and> posix_relative ''/srv/app'' ''/srv/app'' fn = [])"
proof -
  let ?rel = "posix_relative ''/srv/app''"
  let ?tr = "[Some \<lparr>fileName = Some ''/srv/app/dist/routes/root.js''\<rparr>]"
  let ?dot = "[Some \<lparr>fileName = Some ''.''\<rparr>]"
  have "getCallerFile ?rel ''/srv/app'' (None # Some \<lparr>fileName = None\<rparr> # ?tr) =
        getCallerFile ?rel ''/srv/app'' ?tr"
    using getCallerFile_total [of ?rel "''/srv/app''" "Some \<lparr>fileName = None\<rparr> # ?tr"]
          getCallerFile_total [of ?rel "''/srv/app''" ?tr]
    by simp
  then have skipped: "getCallerFile ?rel ''/srv/app''
      (None # Some \<lparr>fileName = None\<rparr> # ?tr) = ''dist/routes/root.js''"
    by (simp add: posix_relative_def posix_resolve_def)
  have empty: "getCallerFile ?rel ''/srv/app'' ?dot = []"
    by (simp add: posix_relative_def posix_resolve_def)
  with getCallerFile_total [of ?rel "''/srv/app''" ?dot]
  have "\<exists>fr fn. Some fr \<in> set ?dot \<and> fileName fr = Some fn \<and> fn \<noteq> [] \<and>
      ?rel ''/srv/app'' fn = []"
    by blast
  with skipped empty show ?thesis
    by blast
qed

text \<open>
  A frame whose file name resolves to the working directory itself passes the three
  tests, and \<^verbatim>\<open>path.relative\<close> of a path to itself is the empty string: the result is
  empty, against C10 as stated.
\<close>

theorem getCallerFile_empty_counterexample:
  "getCallerFile (posix_relative ''/srv/app'') ''/srv/app''
     [Some \<lparr>fileName = Some ''/srv/app/dist/util/logger.js''\<rparr>,
      Some \<lparr>fileName = Some ''/srv/app''\<rparr>] = []"
  by (simp add: posix_relative_def posix_resolve_def)

section \<open>Properties of the configuration and of the level filter\<close>

lemma env_logLevel_nonempty: "logLevel (debugging (env pe)) \<noteq> []"
  by (simp add: env_def js_or_def split: option.splits)

lemma init_module_level: "Logger.level (logger (init_module (env pe))) = logLevel (debugging (env pe))"
  using env_logLevel_nonempty [of pe]
  by (simp add: init_module_def createLogger_def silence_def js_or_def Let_def)

lemma init_module_transports:
  "transports (logger (init_module e)) = [\<lparr> silent = \<not> enableDebug (debugging e) \<rparr>]"
  by (simp add: init_module_def createLogger_def silence_def Let_def)

lemma init_module_shouldLog:
  "shouldLogFileName (init_module e) = (logLevel (debugging e) \<in> set fileNameLogLevels)"
  by (simp add: init_module_def Let_def)

lemma enableDebug_env: "enableDebug (debugging (env pe)) = (ENABLE_DEBUG pe \<noteq> Some ''false'')"
  by (simp add: env_def)

lemma npm_levels_level_name: "npm_levels (level_name l) = Some (severity_rank l)"
  by (cases l) (simp_all add: npm_levels_def)

lemma level_name_listed: "level_name l \<in> set fileNameLogLevels"
  by (cases l) (simp_all add: fileNameLogLevels_def)

lemma npm_levels_listed: "npm_levels name = Some r \<Longrightarrow> name \<in> set fileNameLogLevels"
  by (auto simp: npm_levels_def fileNameLogLevels_def split: if_splits)

lemma logger_log_init:
  "logger_log rt (init_module (env pe)) mo lvl msg =
     transport_write (logLevel (debugging (env pe)))
       \<lparr> silent = (ENABLE_DEBUG pe = Some ''false'') \<rparr> (level_name lvl)
       (printf rt (logLevel (debugging (env pe)) \<in> set fileNameLogLevels) (stack mo)
          \<lparr> timestamp = Some (format_timestamp (now mo)),
            level = level_name lvl, message = msg \<rparr>)"
  by (simp add: logger_log_def init_module_level init_module_transports init_module_shouldLog
        enableDebug_env Let_def)

lemma log_steps:
  "foldl (log_step rt) (m, out) calls =
     (m, out @ concat (map (\<lambda>(mo, lvl, msg). logger_log rt m mo lvl msg) calls))"
  by (induction calls arbitrary: out) auto

lemma run_calls_eq:
  "run_calls rt m calls = (m, concat (map (\<lambda>(mo, lvl, msg). logger_log rt m mo lvl msg) calls))"
  by (simp add: run_calls_def log_steps)

lemma load_module_fst: "fst (load_module rt pe mo) = init_module (env pe)"
  by (simp add: load_module_def Let_def)

lemma load_module_snd:
  "snd (load_module rt pe mo) =
     logger_log rt (init_module (env pe)) mo Info ''Logger initialized successfully''"
  by (simp add: load_module_def Let_def)

text \<open>
  C1 (as amended). While the logger is enabled, for each of the seven levels and every
  message the operation writes exactly one line when the configured minimum severity is
  at or below the level in the ordering, and no line when it is strictly above.
\<close>

theorem logger_log_filter:
  assumes "ENABLE_DEBUG pe \<noteq> Some ''false''"
      and "logLevel (debugging (env pe)) = level_name th"
  shows "logger_log rt (init_module (env pe)) mo lvl msg =
     (if severity_rank lvl \<le> severity_rank th
      then [printf rt True (stack mo)
             \<lparr> timestamp = Some (format_timestamp (now mo)),
               level = level_name lvl, message = msg \<rparr>]
      else [])"
  using assms
  by (simp add: logger_log_init transport_write_def npm_levels_level_name level_name_listed)

theorem logger_log_filter_witness:
  "length (logger_log (posix_runtime ''/srv/app'')
       (init_module (env \<lparr> LOG_LEVEL = Some ''http'', ENABLE_DEBUG = None \<rparr>))
       route_moment Warn ''disk almost full'') = 1 \<and>
   logger_log (posix_runtime ''/srv/app'')
       (init_module (env \<lparr> LOG_LEVEL = Some ''http'', ENABLE_DEBUG = None \<rparr>))
       route_moment Debug ''cache miss'' = []"
proof -
  let ?pe = "\<lparr> LOG_LEVEL = Some ''http'', ENABLE_DEBUG = None \<rparr>"
  have on: "ENABLE_DEBUG ?pe \<noteq> Some ''false''"
    by simp
  have th: "logLevel (debugging (env ?pe)) = level_name Http"
    by (simp add: env_def js_or_def)
  show ?thesis
    using logger_log_filter [OF on th, of "posix_runtime ''/srv/app''" route_moment Warn
            "''disk almost full''"]
          logger_log_filter [OF on th, of "posix_runtime ''/srv/app''" route_moment Debug
            "''cache miss''"]
    by simp
qed

text \<open>
  With \<^verbatim>\<open>ENABLE_DEBUG=false\<close> the transport is silent: an \<^verbatim>\<open>error\<close> call writes nothing
  although the configured minimum severity \<^verbatim>\<open>silly\<close> is below it, against C1 as stated.
\<close>

theorem logger_log_disabled_counterexample:
  "severity_rank Error \<le> severity_rank Silly \<and>
   logLevel (debugging (env \<lparr> LOG_LEVEL = Some ''silly'', ENABLE_DEBUG = Some ''false'' \<rparr>))
     = level_name Silly \<and>
   logger_log (posix_runtime ''/srv/app'')
       (init_module (env \<lparr> LOG_LEVEL = Some ''silly'', ENABLE_DEBUG = Some ''false'' \<rparr>))
       route_moment Error ''x'' = []"
proof -
  let ?pe = "\<lparr> LOG_LEVEL = Some ''silly'', ENABLE_DEBUG = Some ''false'' \<rparr>"
  have "logLevel (debugging (env ?pe)) = level_name Silly"
    by (simp add: env_def js_or_def)
  moreover have "logger_log (posix_runtime ''/srv/app'') (init_module (env ?pe))
       route_moment Error ''x'' = []"
    by (simp add: logger_log_init transport_write_def)
  ultimately show ?thesis
    by simp
qed

text \<open>
  C2. When \<^verbatim>\<open>ENABLE_DEBUG\<close> is exactly \<^verbatim>\<open>false\<close>, no operation at any level writes
  anything, whatever the configured minimum severity: not a single call, not the call
  made while the module loads, not any run of calls afterwards. For every other value,
  and when the variable is unset, the logger is enabled and no transport is silent.
\<close>

theorem kill_switch:
  "(ENABLE_DEBUG pe = Some ''false'' \<longrightarrow>
      logger_log rt (init_module (env pe)) mo lvl msg = [] \<and>
      snd (load_module rt pe mo) = [] \<and>
      snd (run_calls rt (fst (load_module rt pe mo)) calls) = []) \<and>
   (ENABLE_DEBUG pe \<noteq> Some ''false'' \<longrightarrow>
      enableDebug (debugging (env pe)) \<and>
      (\<forall>t \<in> set (transports (logger (fst (load_module rt pe mo)))). \<not> silent t))"
proof (intro conjI impI)
  assume off: "ENABLE_DEBUG pe = Some ''false''"
  have none: "logger_log rt (init_module (env pe)) mo' lvl' msg' = []" for mo' lvl' msg'
    using off by (simp add: logger_log_init transport_write_def)
  show "logger_log rt (init_module (env pe)) mo lvl msg = []"
    by (rule none)
  show "snd (load_module rt pe mo) = []"
    by (simp add: load_module_snd none)
  show "snd (run_calls rt (fst (load_module rt pe mo)) calls) = []"
    by (simp add: load_module_fst run_calls_eq none split_def)
next
  assume on: "ENABLE_DEBUG pe \<noteq> Some ''false''"
  then show "enableDebug (debugging (env pe))"
    by (simp add: enableDebug_env)
  from on show "\<forall>t \<in> set (transports (logger (fst (load_module rt pe mo)))). \<not> silent t"
    by (simp add: load_module_fst init_module_transports enableDebug_env)
qed

theorem kill_switch_witness:
  "snd (run_calls (posix_runtime ''/srv/app'')
      (fst (load_module (posix_runtime ''/srv/app'')
             \<lparr> LOG_LEVEL = Some ''silly'', ENABLE_DEBUG = Some ''false'' \<rparr> route_moment))
      [(route_moment, Error, ''down''), (route_moment, Silly, ''tick'')]) = [] \<and>
   enableDebug (debugging (env \<lparr> LOG_LEVEL = None, ENABLE_DEBUG = Some ''FALSE'' \<rparr>)) \<and>
   enableDebug (debugging (env \<lparr> LOG_LEVEL = None, ENABLE_DEBUG = None \<rparr>))"
proof -
  let ?rt = "posix_runtime ''/srv/app''"
  let ?off = "\<lparr> LOG_LEVEL = Some ''silly'', ENABLE_DEBUG = Some ''false'' \<rparr>"
  let ?caps = "\<lparr> LOG_LEVEL = None, ENABLE_DEBUG = Some ''FALSE'' \<rparr>"
  let ?unset = "\<lparr> LOG_LEVEL = None, ENABLE_DEBUG = None \<rparr>"
  have a: "ENABLE_DEBUG ?off = Some ''false''" by simp
  have b: "ENABLE_DEBUG ?caps \<noteq> Some ''false''" by simp
  have c: "ENABLE_DEBUG ?unset \<noteq> Some ''false''" by simp
  show ?thesis
    using kill_switch [of ?off ?rt route_moment Error "''down''"
            "[(route_moment, Error, ''down''), (route_moment, Silly, ''tick'')]"] a
          kill_switch [of ?caps ?rt route_moment Error "''down''" "[]"] b
          kill_switch [of ?unset ?rt route_moment Error "''down''" "[]"] c
    by blast
qed




text \<open>
  C7. Loading the module makes exactly one call, \<^verbatim>\<open>logger.info\<close> with the message
  announcing the setup, and what it writes is what that operation writes on the loaded
  module: nothing when \<^verbatim>\<open>ENABLE_DEBUG\<close> is \<^verbatim>\<open>false\<close> or when the configured minimum
  severity is more severe than \<^verbatim>\<open>info\<close>, and the one formatted line when the logger is
  enabled and the minimum severity is \<^verbatim>\<open>info\<close> or below.
\<close>

theorem load_module_announcement:
  "load_module rt pe mo =
     (init_module (env pe),
      logger_log rt (init_module (env pe)) mo Info ''Logger initialized successfully'') \<and>
   (ENABLE_DEBUG pe = Some ''false'' \<or>
    (logLevel (debugging (env pe)) = level_name th \<and> severity_rank th < severity_rank Info)
      \<longrightarrow> snd (load_module rt pe mo) = []) \<and>
   (ENABLE_DEBUG pe \<noteq> Some ''false'' \<and>
    logLevel (debugging (env pe)) = level_name th \<and> severity_rank Info \<le> severity_rank th
      \<longrightarrow> snd (load_module rt pe mo) =
            [printf rt True (stack mo)
               \<lparr> timestamp = Some (format_timestamp (now mo)),
                 level = ''info'', message = ''Logger initialized successfully'' \<rparr>])"
proof (intro conjI impI)
  show "load_module rt pe mo =
     (init_module (env pe),
      logger_log rt (init_module (env pe)) mo Info ''Logger initialized successfully'')"
    by (simp add: load_module_def Let_def)
next
  assume "ENABLE_DEBUG pe = Some ''false'' \<or>
    (logLevel (debugging (env pe)) = level_name th \<and> severity_rank th < severity_rank Info)"
  then show "snd (load_module rt pe mo) = []"
  proof
    assume "ENABLE_DEBUG pe = Some ''false''"
    then show ?thesis
      by (simp add: load_module_snd logger_log_init transport_write_def)
  next
    assume "logLevel (debugging (env pe)) = level_name th \<and> severity_rank th < severity_rank Info"
    then show ?thesis
      using npm_levels_level_name [of Info]
      by (simp add: load_module_snd logger_log_init transport_write_def npm_levels_level_name)
  qed
next
  assume "ENABLE_DEBUG pe \<noteq> Some ''false'' \<and>
    logLevel (debugging (env pe)) = level_name th \<and> severity_rank Info \<le> severity_rank th"
  then show "snd (load_module rt pe mo) =
            [printf rt True (stack mo)
               \<lparr> timestamp = Some (format_timestamp (now mo)),
                 level = ''info'', message = ''Logger initialized successfully'' \<rparr>]"
    using npm_levels_level_name [of Info]
    by (simp add: load_module_snd logger_log_init transport_write_def npm_levels_level_name
          level_name_listed)
qed

theorem load_module_announcement_witness:
  "length (snd (load_module (posix_runtime ''/srv/app'')
       \<lparr> LOG_LEVEL = Some ''debug'', ENABLE_DEBUG = None \<rparr> route_moment)) = 1 \<and>
   snd (load_module (posix_runtime ''/srv/app'')
       \<lparr> LOG_LEVEL = Some ''warn'', ENABLE_DEBUG = None \<rparr> route_moment) = [] \<and>
   snd (load_module (posix_runtime ''/srv/app'')
       \<lparr> LOG_LEVEL = Some ''debug'', ENABLE_DEBUG = Some ''false'' \<rparr> route_moment) = []"
proof -
  let ?rt = "posix_runtime ''/srv/app''"
  let ?debug = "\<lparr> LOG_LEVEL = Some ''debug'', ENABLE_DEBUG = None \<rparr>"
  let ?warn = "\<lparr> LOG_LEVEL = Some ''warn'', ENABLE_DEBUG = None \<rparr>"
  let ?off = "\<lparr> LOG_LEVEL = Some ''debug'', ENABLE_DEBUG = Some ''false'' \<rparr>"
  have a: "ENABLE_DEBUG ?debug \<noteq> Some ''false'' \<and>
      logLevel (debugging (env ?debug)) = level_name Debug \<and>
      severity_rank Info \<le> severity_rank Debug"
    by (simp add: env_def js_or_def)
  have b: "logLevel (debugging (env ?warn)) = level_name Warn \<and>
      severity_rank Warn < severity_rank Info"
    by (simp add: env_def js_or_def)
  have c: "ENABLE_DEBUG ?off = Some ''false''"
    by simp
  have "snd (load_module ?rt ?debug route_moment) =
      [printf ?rt True (stack route_moment)
         \<lparr> timestamp = Some (format_timestamp (now route_moment)),
           level = ''info'', message = ''Logger initialized successfully'' \<rparr>]"
    using load_module_announcement [of ?rt ?debug route_moment Debug] a by blast
  moreover have "snd (load_module ?rt ?warn route_moment) = []"
    using load_module_announcement [of ?rt ?warn route_moment Warn] b by blast
  moreover have "snd (load_module ?rt ?off route_moment) = []"
    using load_module_announcement [of ?rt ?off route_moment Warn] c by blast
  ultimately show ?thesis
    by simp
qed

text \<open>
  C9. The loaded module holds one level, resolved from \<^verbatim>\<open>LOG_LEVEL\<close>, and one transport
  whose \<^verbatim>\<open>silent\<close> flag is resolved from \<^verbatim>\<open>ENABLE_DEBUG\<close>; after any number of logging
  calls, at any levels and with any messages, the module's state is the one it had after
  loading.
\<close>

theorem configuration_fixed:
  "Logger.level (logger (fst (load_module rt pe mo))) = js_or (LOG_LEVEL pe) ''silly'' \<and>
   map silent (transports (logger (fst (load_module rt pe mo)))) =
     [ENABLE_DEBUG pe = Some ''false''] \<and>
   (\<forall>n. fst (run_calls rt (fst (load_module rt pe mo)) (take n calls)) =
          fst (load_module rt pe mo))"
proof (intro conjI allI)
  show "Logger.level (logger (fst (load_module rt pe mo))) = js_or (LOG_LEVEL pe) ''silly''"
    by (simp add: load_module_fst init_module_level) (simp add: env_def)
  show "map silent (transports (logger (fst (load_module rt pe mo)))) =
     [ENABLE_DEBUG pe = Some ''false'']"
    by (simp add: load_module_fst init_module_transports enableDebug_env)
  show "fst (run_calls rt (fst (load_module rt pe mo)) (take n calls)) =
          fst (load_module rt pe mo)" for n
    by (simp add: run_calls_eq)
qed

theorem configuration_fixed_witness:
  "(let m = fst (load_module (posix_runtime ''/srv/app'')
               \<lparr> LOG_LEVEL = Some ''http'', ENABLE_DEBUG = Some ''false'' \<rparr> route_moment);
        m' = fst (run_calls (posix_runtime ''/srv/app'') m
               [(route_moment, Error, ''down''), (route_moment, Silly, ''tick'')])
    in Logger.level (logger m') = ''http'' \<and> map silent (transports (logger m')) = [True])"
proof -
  let ?rt = "posix_runtime ''/srv/app''"
  let ?pe = "\<lparr> LOG_LEVEL = Some ''http'', ENABLE_DEBUG = Some ''false'' \<rparr>"
  let ?calls = "[(route_moment, Error, ''down''), (route_moment, Silly, ''tick'')]"
  note fixed = configuration_fixed [of ?rt ?pe route_moment ?calls]
  from fixed have "fst (run_calls ?rt (fst (load_module ?rt ?pe route_moment)) (take 2 ?calls)) =
      fst (load_module ?rt ?pe route_moment)"
    by blast
  with fixed show ?thesis
    by (simp add: js_or_def)
qed

section \<open>Properties of the formatter\<close>

lemma printf_timestamp:
  "printf rt b tr \<lparr> timestamp = Some ts, level = l, message = msg \<rparr> =
     ts @ printf rt b tr \<lparr> timestamp = None, level = l, message = msg \<rparr>"
  by (simp add: printf_def js_or_def Let_def)

lemma printf_line:
  "printf rt True tr \<lparr> timestamp = Some ts, level = level_name lvl, message = msg \<rparr> =
     ts @ '' ['' @ ESC # ''['' @ level_colour lvl @ ''m'' @ toUpperCase (level_name lvl) @
     ESC # ''[0m]'' @
     (let p = getCallerFile (path_relative rt) (process_cwd rt) tr
      in if p = [] then [] else ESC # ''[35m['' @ p @ '']'' @ ESC # ''[0m'') @
     '': '' @ msg"
  by (cases lvl) (simp_all add: printf_def js_or_def Let_def)

lemma digit_char_digit: "is_digit (digit_char n)"
proof -
  have "n mod 10 < length ''0123456789''"
    by simp
  then have "''0123456789'' ! (n mod 10) \<in> set ''0123456789''"
    by (rule nth_mem)
  then show ?thesis
    by (simp only: is_digit_def digit_char_def)
qed

lemma show_nat_digits: "list_all is_digit (show_nat n)"
proof (induction n rule: show_nat.induct)
  case (1 n)
  show ?case
  proof (cases "n < 10")
    case True
    then show ?thesis
      by (subst show_nat.simps) (simp add: digit_char_digit)
  next
    case False
    with 1 show ?thesis
      by (subst show_nat.simps) (simp add: digit_char_digit)
  qed
qed

lemma show_nat_length: "n < 10 ^ k \<Longrightarrow> 0 < k \<Longrightarrow> length (show_nat n) \<le> k"
proof (induction n arbitrary: k rule: show_nat.induct)
  case (1 n)
  show ?case
  proof (cases "n < 10")
    case True
    with 1(3) show ?thesis
      by (subst show_nat.simps) simp
  next
    case False
    have "k \<noteq> 1"
    proof
      assume "k = 1"
      with 1(2) have "n < 10"
        by simp
      with False show False
        by simp
    qed
    with 1(3) obtain j where j: "k = Suc j" "0 < j"
      by (cases k) auto
    with 1(2) have "n div 10 < 10 ^ j"
      by (simp add: less_mult_imp_div_less mult.commute)
    with 1(1) [OF False this] j have "length (show_nat (n div 10)) \<le> j"
      by simp
    with False j show ?thesis
      by (subst show_nat.simps) simp
  qed
qed

lemma pad_digits: "list_all is_digit (pad n k)"
proof -
  have zero: "is_digit (CHR ''0'')"
    by (simp add: is_digit_def)
  have "list_all is_digit (replicate j (CHR ''0''))" for j
    by (induction j) (simp_all add: zero)
  then show ?thesis
    by (simp add: pad_def Let_def show_nat_digits)
qed

lemma pad_length:
  assumes "n < 10 ^ k" and "0 < k"
  shows "length (pad n k) = k"
proof -
  from assms have "length (show_nat n) \<le> k"
    by (rule show_nat_length)
  then show ?thesis
    by (simp add: pad_def Let_def)
qed

lemma ESC_no_digit: "\<not> is_digit ESC"
  by (simp add: is_digit_def ESC_def)

lemma digits_no_ESC: "list_all is_digit s \<Longrightarrow> ESC \<notin> set s"
  using ESC_no_digit by (auto simp: list_all_iff)

lemma format_timestamp_no_ESC: "ESC \<notin> set (format_timestamp c)"
proof -
  have "ESC \<notin> set (pad n k)" for n k
    by (rule digits_no_ESC [OF pad_digits])
  moreover have "ESC \<notin> set ''-''" "ESC \<notin> set '' ''" "ESC \<notin> set '':''"
    by (simp_all add: ESC_def)
  ultimately show ?thesis
    by (simp only: format_timestamp_def set_append Un_iff) simp
qed

section \<open>Properties of colour stripping\<close>

lemma sgr_code_no_ESC: "c \<noteq> ESC \<Longrightarrow> sgr_code (c # cs) = None"
  by (cases cs) simp_all

lemma strip_ansi_plain: "ESC \<notin> set s \<Longrightarrow> strip_ansi (s @ t) = s @ strip_ansi t"
  by (induction s) (auto simp: sgr_code_no_ESC)

lemma sgr_params_digits:
  "list_all is_digit ds \<Longrightarrow> sgr_params (ds @ CHR ''m'' # t) = Some t"
  by (induction ds) (auto simp: is_digit_def)

lemma strip_ansi_code:
  "list_all is_digit ds \<Longrightarrow> strip_ansi (ESC # CHR ''['' # ds @ CHR ''m'' # t) = strip_ansi t"
  by (simp add: sgr_params_digits)

lemma sgr_params_barrier:
  "\<not> is_digit c \<Longrightarrow> c \<noteq> CHR ''m'' \<Longrightarrow>
   sgr_params (cs @ c # t) = map_option (\<lambda>r. r @ c # t) (sgr_params cs)"
  by (induction cs) simp_all

lemma sgr_code_barrier:
  assumes "\<not> is_digit c" and "c \<noteq> CHR ''m''" and "c \<noteq> CHR ''[''" and "c \<noteq> ESC"
  shows "sgr_code (cs @ c # t) = map_option (\<lambda>r. r @ c # t) (sgr_code cs)"
proof (cases cs)
  case Nil
  with assms show ?thesis
    by (simp add: sgr_code_no_ESC)
next
  case outer: (Cons a r)
  show ?thesis
  proof (cases r)
    case Nil
    with outer assms show ?thesis
      by simp
  next
    case (Cons b r')
    with outer assms show ?thesis
      by (simp add: sgr_params_barrier)
  qed
qed

lemma strip_ansi_barrier:
  assumes "\<not> is_digit c" and "c \<noteq> CHR ''m''" and "c \<noteq> CHR ''[''" and "c \<noteq> ESC"
  shows "strip_ansi (p @ c # t) = strip_ansi p @ c # strip_ansi t"
proof (induction p rule: strip_ansi.induct)
  case 1
  from assms show ?case
    by (simp add: sgr_code_no_ESC)
next
  case (2 x xs)
  have code: "sgr_code ((x # xs) @ c # t) = map_option (\<lambda>r. r @ c # t) (sgr_code (x # xs))"
    using assms by (rule sgr_code_barrier)
  show ?case
  proof (cases "sgr_code (x # xs)")
    case None
    with code 2 show ?thesis
      by simp
  next
    case (Some rest)
    with code 2 show ?thesis
      by simp
  qed
qed

lemma strip_ansi_char: "c \<noteq> ESC \<Longrightarrow> strip_ansi (c # t) = c # strip_ansi t"
  by (simp add: sgr_code_no_ESC)

lemma strip_ansi_bracket:
  "strip_ansi (ESC # ''[35m['' @ p @ '']'' @ ESC # ''[0m'' @ '': '' @ msg) =
     ''['' @ strip_ansi p @ '']: '' @ strip_ansi msg"
proof -
  have sep: "strip_ansi ('': '' @ msg) = '': '' @ strip_ansi msg"
    by (rule strip_ansi_plain) (simp add: ESC_def)
  have reset: "strip_ansi (ESC # CHR ''['' # ''0'' @ CHR ''m'' # '': '' @ msg) =
      strip_ansi ('': '' @ msg)"
    by (rule strip_ansi_code) (simp add: is_digit_def)
  have close: "strip_ansi (p @ CHR '']'' # ESC # ''[0m'' @ '': '' @ msg) =
      strip_ansi p @ CHR '']'' # strip_ansi (ESC # ''[0m'' @ '': '' @ msg)"
    by (rule strip_ansi_barrier) (simp_all add: is_digit_def ESC_def)
  have "open": "strip_ansi (CHR ''['' # p @ '']'' @ ESC # ''[0m'' @ '': '' @ msg) =
      CHR ''['' # strip_ansi (p @ '']'' @ ESC # ''[0m'' @ '': '' @ msg)"
    by (rule strip_ansi_char) (simp add: ESC_def)
  have purple: "strip_ansi (ESC # CHR ''['' # ''35'' @ CHR ''m'' # CHR ''['' # p @ '']'' @
        ESC # ''[0m'' @ '': '' @ msg) =
      strip_ansi (CHR ''['' # p @ '']'' @ ESC # ''[0m'' @ '': '' @ msg)"
    by (rule strip_ansi_code) (simp add: is_digit_def)
  from purple "open" close reset sep show ?thesis
    by simp
qed

lemma strip_ansi_level:
  assumes "list_all is_digit ds" and "ESC \<notin> set up"
  shows "strip_ansi (ESC # ''['' @ ds @ ''m'' @ up @ ESC # ''[0m]'' @ rest) =
     up @ '']'' @ strip_ansi rest"
proof -
  have colour: "strip_ansi (ESC # CHR ''['' # ds @ CHR ''m'' # up @ ESC # ''[0m]'' @ rest) =
      strip_ansi (up @ ESC # ''[0m]'' @ rest)"
    using assms(1) by (rule strip_ansi_code)
  have name: "strip_ansi (up @ ESC # ''[0m]'' @ rest) = up @ strip_ansi (ESC # ''[0m]'' @ rest)"
    using assms(2) by (rule strip_ansi_plain)
  have reset: "strip_ansi (ESC # CHR ''['' # ''0'' @ CHR ''m'' # CHR '']'' # rest) =
      strip_ansi (CHR '']'' # rest)"
    by (rule strip_ansi_code) (simp add: is_digit_def)
  have close: "strip_ansi (CHR '']'' # rest) = CHR '']'' # strip_ansi rest"
    by (rule strip_ansi_char) (simp add: ESC_def)
  from colour name reset close show ?thesis
    by simp
qed

lemma level_colour_digits: "list_all is_digit (level_colour lvl)"
  by (cases lvl) (simp_all add: is_digit_def)

lemma level_upper_no_ESC: "ESC \<notin> set (toUpperCase (level_name lvl))"
  by (cases lvl) (simp_all add: toUpperCase_def upper_char_def ESC_def)

lemma strip_ansi_line:
  assumes "ESC \<notin> set ts"
  shows "strip_ansi (printf rt True tr
           \<lparr> timestamp = Some ts, level = level_name lvl, message = msg \<rparr>) =
     ts @ '' ['' @ toUpperCase (level_name lvl) @ '']'' @
     (let p = getCallerFile (path_relative rt) (process_cwd rt) tr
      in if p = [] then [] else ''['' @ strip_ansi p @ '']'') @
     '': '' @ strip_ansi msg"
proof -
  let ?p = "getCallerFile (path_relative rt) (process_cwd rt) tr"
  let ?tail = "(if ?p = [] then [] else ESC # ''[35m['' @ ?p @ '']'' @ ESC # ''[0m'') @ '': '' @ msg"
  have line: "printf rt True tr \<lparr> timestamp = Some ts, level = level_name lvl, message = msg \<rparr> =
      ts @ '' ['' @ (ESC # ''['' @ level_colour lvl @ ''m'' @ toUpperCase (level_name lvl) @
      ESC # ''[0m]'' @ ?tail)"
    by (simp add: printf_line Let_def)
  have stamp: "strip_ansi (ts @ '' ['' @ r) = ts @ '' ['' @ strip_ansi r" for r
  proof -
    have "ESC \<notin> set (ts @ '' ['')"
      using assms by (simp add: ESC_def)
    then have "strip_ansi ((ts @ '' ['') @ r) = (ts @ '' ['') @ strip_ansi r"
      by (rule strip_ansi_plain)
    then show ?thesis
      by simp
  qed
  have level: "strip_ansi (ESC # ''['' @ level_colour lvl @ ''m'' @ toUpperCase (level_name lvl) @
      ESC # ''[0m]'' @ ?tail) = toUpperCase (level_name lvl) @ '']'' @ strip_ansi ?tail"
    using level_colour_digits level_upper_no_ESC by (rule strip_ansi_level)
  have tail: "strip_ansi ?tail =
      (if ?p = [] then [] else ''['' @ strip_ansi ?p @ '']'') @ '': '' @ strip_ansi msg"
  proof (cases "?p = []")
    case True
    have "strip_ansi ('': '' @ msg) = '': '' @ strip_ansi msg"
      by (rule strip_ansi_plain) (simp add: ESC_def)
    with True show ?thesis
      by simp
  next
    case False
    with strip_ansi_bracket [of ?p msg] show ?thesis
      by simp
  qed
  show ?thesis
    by (simp only: line stamp level tail Let_def)
qed

section \<open>Properties of the emitted lines\<close>

text \<open>
  A line reaches the console only when the logger is enabled and its level names one of
  the seven severities; the line is then the formatter's, with attribution on.
\<close>

lemma emitted_line:
  assumes "line \<in> set (logger_log rt (init_module (env pe)) mo lvl msg)"
  shows "line = printf rt True (stack mo)
           \<lparr> timestamp = Some (format_timestamp (now mo)),
             level = level_name lvl, message = msg \<rparr> \<and>
         logLevel (debugging (env pe)) \<in> set fileNameLogLevels \<and>
         ENABLE_DEBUG pe \<noteq> Some ''false''"
proof -
  let ?thr = "logLevel (debugging (env pe))"
  let ?ln = "printf rt (?thr \<in> set fileNameLogLevels) (stack mo)
           \<lparr> timestamp = Some (format_timestamp (now mo)),
             level = level_name lvl, message = msg \<rparr>"
  from assms have w: "line \<in> set (transport_write ?thr
      \<lparr> silent = (ENABLE_DEBUG pe = Some ''false'') \<rparr> (level_name lvl) ?ln)"
    by (simp add: logger_log_init)
  then have on: "ENABLE_DEBUG pe \<noteq> Some ''false''"
    by (auto simp: transport_write_def split: if_splits)
  from w obtain a where "npm_levels ?thr = Some a"
    by (cases "npm_levels ?thr") (auto simp: transport_write_def split: if_splits)
  then have listed: "?thr \<in> set fileNameLogLevels"
    by (rule npm_levels_listed)
  from w have "line = ?ln"
    by (auto simp: transport_write_def split: if_splits option.splits)
  with on listed show ?thesis
    by simp
qed

lemma digits_pattern:
  "list_all is_digit s \<Longrightarrow> list_all2 pattern_char s (replicate (length s) (CHR ''d''))"
  by (induction s) (simp_all add: pattern_char_def)

lemma pad_pattern:
  assumes "n < 10 ^ k" and "0 < k"
  shows "list_all2 pattern_char (pad n k) (replicate k (CHR ''d''))"
  using digits_pattern [OF pad_digits, of n k] pad_length [OF assms] by simp

lemma separator_pattern: "c \<noteq> CHR ''d'' \<Longrightarrow> list_all2 pattern_char [c] [c]"
  by (simp add: pattern_char_def)

lemma format_timestamp_pattern:
  assumes "calendar_clock c"
  shows "timestamp_pattern (format_timestamp c)"
proof -
  have four_d: "replicate 4 (CHR ''d'') = ''dddd''" and two_d: "replicate 2 (CHR ''d'') = ''dd''"
    by (simp_all add: numeral_eq_Suc)
  from assms have "year c < 10 ^ 4"
    by (simp add: calendar_clock_def)
  then have "list_all2 pattern_char (pad (year c) 4) (replicate 4 (CHR ''d''))"
    by (rule pad_pattern) simp
  then have y: "list_all2 pattern_char (pad (year c) 4) ''dddd''"
    by (simp only: four_d)
  have two: "list_all2 pattern_char (pad n 2) ''dd''" if "n < 100" for n
  proof -
    from that have "n < 10 ^ 2"
      by simp
    then have "list_all2 pattern_char (pad n 2) (replicate 2 (CHR ''d''))"
      by (rule pad_pattern) simp
    then show ?thesis
      by (simp only: two_d)
  qed
  from assms have rest: "month c < 100" "day c < 100" "hour c < 100" "minute c < 100" "second c < 100"
    by (simp_all add: calendar_clock_def)
  have "list_all2 pattern_char
      (pad (year c) 4 @ ''-'' @ pad (month c) 2 @ ''-'' @ pad (day c) 2 @ '' '' @
       pad (hour c) 2 @ '':'' @ pad (minute c) 2 @ '':'' @ pad (second c) 2)
      (''dddd'' @ ''-'' @ ''dd'' @ ''-'' @ ''dd'' @ '' '' @ ''dd'' @ '':'' @ ''dd'' @ '':'' @ ''dd'')"
    by (intro list_all2_appendI y two rest separator_pattern) simp_all
  then show ?thesis
    by (simp add: timestamp_pattern_def format_timestamp_def)
qed

text \<open>
  C6 (as amended). Every emitted line reads, once the colour codes are stripped,
  \<^verbatim>\<open><timestamp> [<LEVEL>][<path>]: <message>\<close> when its caller path is not the empty
  string, and \<^verbatim>\<open><timestamp> [<LEVEL>]: <message>\<close>, without bracket, when it is: the
  timestamp rendered by the pattern \<^verbatim>\<open>YYYY-MM-DD HH:mm:ss\<close> (four, two, two, two, two
  and two digits for a calendar date), the severity name in upper case, and the path
  and the message as they read after the same stripping.
\<close>

theorem emitted_line_structure:
  assumes "line \<in> set (logger_log rt (init_module (env pe)) mo lvl msg)"
  shows "(getCallerFile (path_relative rt) (process_cwd rt) (stack mo) \<noteq> [] \<longrightarrow>
          strip_ansi line =
           format_timestamp (now mo) @ '' ['' @ toUpperCase (level_name lvl) @ '']['' @
           strip_ansi (getCallerFile (path_relative rt) (process_cwd rt) (stack mo)) @
           '']: '' @ strip_ansi msg) \<and>
         (getCallerFile (path_relative rt) (process_cwd rt) (stack mo) = [] \<longrightarrow>
          strip_ansi line =
           format_timestamp (now mo) @ '' ['' @ toUpperCase (level_name lvl) @ '']: '' @
           strip_ansi msg) \<and>
         (calendar_clock (now mo) \<longrightarrow> timestamp_pattern (format_timestamp (now mo)))"
proof -
  let ?p = "getCallerFile (path_relative rt) (process_cwd rt) (stack mo)"
  from assms have "line = printf rt True (stack mo)
           \<lparr> timestamp = Some (format_timestamp (now mo)),
             level = level_name lvl, message = msg \<rparr>"
    by (simp add: emitted_line)
  with strip_ansi_line [OF format_timestamp_no_ESC, of rt "stack mo" "now mo" lvl msg]
  have stripped: "strip_ansi line =
      format_timestamp (now mo) @ '' ['' @ toUpperCase (level_name lvl) @ '']'' @
      (if ?p = [] then [] else ''['' @ strip_ansi ?p @ '']'') @ '': '' @ strip_ansi msg"
    by (simp add: Let_def)
  have filled: "strip_ansi line =
           format_timestamp (now mo) @ '' ['' @ toUpperCase (level_name lvl) @ '']['' @
           strip_ansi ?p @ '']: '' @ strip_ansi msg" if "?p \<noteq> []"
    using stripped that by simp
  have bare: "strip_ansi line =
           format_timestamp (now mo) @ '' ['' @ toUpperCase (level_name lvl) @ '']: '' @
           strip_ansi msg" if "?p = []"
    using stripped that by simp
  have shape: "calendar_clock (now mo) \<longrightarrow> timestamp_pattern (format_timestamp (now mo))"
    by (simp add: format_timestamp_pattern)
  from filled bare shape show ?thesis
    by blast
qed

theorem emitted_line_structure_witness:
  "map strip_ansi (logger_log (posix_runtime ''/srv/app'')
       (init_module (env \<lparr> LOG_LEVEL = None, ENABLE_DEBUG = None \<rparr>))
       route_moment Info ''hello'') =
     [''2026-11-03 09:05:00 [INFO][dist/routes/root.js]: hello''] \<and>
   map strip_ansi (logger_log (posix_runtime ''/srv/app'')
       (init_module (env \<lparr> LOG_LEVEL = None, ENABLE_DEBUG = None \<rparr>))
       cwd_moment Warn ''hello'') =
     [''2026-11-03 09:05:00 [WARN]: hello''] \<and>
   timestamp_pattern ''2026-11-03 09:05:00''"
proof -
  let ?rt = "posix_runtime ''/srv/app''"
  let ?pe = "\<lparr> LOG_LEVEL = None, ENABLE_DEBUG = None \<rparr>"
  let ?line = "printf ?rt True (stack route_moment)
       \<lparr> timestamp = Some (format_timestamp (now route_moment)),
         level = level_name Info, message = ''hello'' \<rparr>"
  let ?bare = "printf ?rt True (stack cwd_moment)
       \<lparr> timestamp = Some (format_timestamp (now cwd_moment)),
         level = level_name Warn, message = ''hello'' \<rparr>"
  have thr: "logLevel (debugging (env ?pe)) = ''silly''"
    by (simp add: env_def js_or_def)
  have out: "logger_log ?rt (init_module (env ?pe)) route_moment Info ''hello'' = [?line]"
    by (simp add: logger_log_init thr transport_write_def npm_levels_def fileNameLogLevels_def)
  then have emitted: "?line \<in> set (logger_log ?rt (init_module (env ?pe)) route_moment Info ''hello'')"
    by simp
  have out': "logger_log ?rt (init_module (env ?pe)) cwd_moment Warn ''hello'' = [?bare]"
    by (simp add: logger_log_init thr transport_write_def npm_levels_def fileNameLogLevels_def)
  then have emitted': "?bare \<in> set (logger_log ?rt (init_module (env ?pe)) cwd_moment Warn ''hello'')"
    by simp
  have path: "getCallerFile (path_relative ?rt) (process_cwd ?rt) (stack route_moment) =
      ''dist/routes/root.js''"
    by (simp add: posix_runtime_def route_moment_def route_stack_def posix_relative_def
          posix_resolve_def)
  have path': "getCallerFile (path_relative ?rt) (process_cwd ?rt) (stack cwd_moment) = []"
    by (simp add: posix_runtime_def cwd_moment_def cwd_stack_def posix_relative_def
          posix_resolve_def)
  have stamp: "format_timestamp (now route_moment) = ''2026-11-03 09:05:00''"
    by (simp add: route_moment_def format_timestamp_def pad_def show_nat.simps digit_char_def)
  have stamp': "format_timestamp (now cwd_moment) = ''2026-11-03 09:05:00''"
    by (simp add: cwd_moment_def format_timestamp_def pad_def show_nat.simps digit_char_def)
  have cal: "calendar_clock (now route_moment)"
    by (simp add: route_moment_def calendar_clock_def)
  have plain: "strip_ansi ''dist/routes/root.js'' = ''dist/routes/root.js''"
      "strip_ansi ''hello'' = ''hello''"
    by (simp_all add: ESC_def)
  have upper: "toUpperCase (level_name Info) = ''INFO''" "toUpperCase (level_name Warn) = ''WARN''"
    by (simp_all add: toUpperCase_def upper_char_def)
  from emitted_line_structure [OF emitted] cal
  have "strip_ansi ?line = ''2026-11-03 09:05:00 [INFO][dist/routes/root.js]: hello''"
    and "timestamp_pattern ''2026-11-03 09:05:00''"
    by (simp_all only: path stamp plain upper) simp_all
  moreover from emitted_line_structure [OF emitted']
  have "strip_ansi ?bare = ''2026-11-03 09:05:00 [WARN]: hello''"
    by (simp only: path' stamp' plain upper) simp
  ultimately show ?thesis
    using out out' by simp
qed

text \<open>
  When the caller's file name resolves to the working directory, the path is empty and
  the formatter leaves the bracket out: the stripped line is
  \<^verbatim>\<open><timestamp> [INFO]: hello\<close>, against C6 as stated.
\<close>

theorem emitted_line_no_bracket_counterexample:
  "map strip_ansi (logger_log (posix_runtime ''/srv/app'')
       (init_module (env \<lparr> LOG_LEVEL = None, ENABLE_DEBUG = None \<rparr>))
       \<lparr> now = \<lparr> year = 2026, month = 11, day = 3, hour = 9, minute = 5, second = 0 \<rparr>,
         stack = [Some \<lparr> fileName = Some ''/srv/app/dist/util/logger.js'' \<rparr>,
                  Some \<lparr> fileName = Some ''/srv/app'' \<rparr>] \<rparr>
       Info ''hello'') =
     [''2026-11-03 09:05:00 [INFO]: hello'']"
proof -
  let ?rt = "posix_runtime ''/srv/app''"
  let ?tr = "[Some \<lparr> fileName = Some ''/srv/app/dist/util/logger.js'' \<rparr>,
                  Some \<lparr> fileName = Some ''/srv/app'' \<rparr>]"
  let ?c = "\<lparr> year = 2026, month = 11, day = 3, hour = 9, minute = 5, second = 0 \<rparr>"
  have path: "path_relative ?rt (process_cwd ?rt) ''/srv/app'' = []"
    by (simp add: posix_runtime_def posix_relative_def posix_resolve_def)
  have thr: "logLevel (debugging (env \<lparr> LOG_LEVEL = None, ENABLE_DEBUG = None \<rparr>)) = ''silly''"
    by (simp add: env_def js_or_def)
  have stamp: "format_timestamp ?c = ''2026-11-03 09:05:00''"
    by (simp add: format_timestamp_def pad_def show_nat.simps digit_char_def)
  have line: "printf ?rt True ?tr
       \<lparr> timestamp = Some ''2026-11-03 09:05:00'', level = ''info'', message = ''hello'' \<rparr> =
       ''2026-11-03 09:05:00 ['' @ ESC # ''[32mINFO'' @ ESC # ''[0m]: hello''"
    by (simp add: printf_def Let_def path js_or_def toUpperCase_def upper_char_def)
  have "strip_ansi (''2026-11-03 09:05:00 ['' @ ESC # ''[32mINFO'' @ ESC # ''[0m]: hello'') =
      ''2026-11-03 09:05:00 [INFO]: hello''"
    by (simp add: ESC_def is_digit_def)
  with line stamp show ?thesis
    by (simp add: logger_log_init thr transport_write_def npm_levels_def fileNameLogLevels_def)
qed

text \<open>
  C4 (as amended). Whatever the configuration and the level, a line that is emitted was
  formatted with attribution on (only the seven severity names let a line through, and
  the allow-list holds all seven); the caller path is the fallback
  \<^verbatim>\<open>unknown file path\<close> or \<^verbatim>\<open>path.relative\<close> of a frame's file; whenever that path is
  not the empty string, the line carries it in the coloured bracket, right before the
  colon and the message; and whenever it is the empty string, the line has no bracket:
  the colon and the message follow the level tag at once.
\<close>

theorem file_path_bracket:
  assumes "line \<in> set (logger_log rt (init_module (env pe)) mo lvl msg)"
  shows "shouldLogFileName (init_module (env pe)) \<and>
     (let p = getCallerFile (path_relative rt) (process_cwd rt) (stack mo)
      in (p = ''unknown file path'' \<or>
          (\<exists>fr fn. Some fr \<in> set (stack mo) \<and> fileName fr = Some fn \<and>
             p = path_relative rt (process_cwd rt) fn)) \<and>
         (p \<noteq> [] \<longrightarrow>
            (\<exists>pre. line = pre @ ESC # ''[35m['' @ p @ '']'' @ ESC # ''[0m'' @ '': '' @ msg)) \<and>
         (p = [] \<longrightarrow>
            line = format_timestamp (now mo) @ '' ['' @ ESC # ''['' @ level_colour lvl @ ''m'' @
                   toUpperCase (level_name lvl) @ ESC # ''[0m]'' @ '': '' @ msg))"
proof -
  let ?p = "getCallerFile (path_relative rt) (process_cwd rt) (stack mo)"
  from assms have line: "line = printf rt True (stack mo)
           \<lparr> timestamp = Some (format_timestamp (now mo)),
             level = level_name lvl, message = msg \<rparr>"
    and listed: "logLevel (debugging (env pe)) \<in> set fileNameLogLevels"
    by (simp_all add: emitted_line)
  from listed have should: "shouldLogFileName (init_module (env pe))"
    by (simp add: init_module_shouldLog)
  have origin: "?p = ''unknown file path'' \<or>
      (\<exists>fr fn. Some fr \<in> set (stack mo) \<and> fileName fr = Some fn \<and>
         ?p = path_relative rt (process_cwd rt) fn)"
    using getCallerFile_cases [of "path_relative rt" "process_cwd rt" "stack mo"] by blast
  have bracket: "\<exists>pre. line = pre @ ESC # ''[35m['' @ ?p @ '']'' @ ESC # ''[0m'' @ '': '' @ msg"
    if "?p \<noteq> []"
  proof -
    from that line have shape: "line = (format_timestamp (now mo) @ '' ['' @ ESC # ''['' @
        level_colour lvl @ ''m'' @ toUpperCase (level_name lvl) @ ESC # ''[0m]'') @
        ESC # ''[35m['' @ ?p @ '']'' @ ESC # ''[0m'' @ '': '' @ msg"
      by (simp add: printf_line Let_def)
    show ?thesis
    proof (intro exI)
      show "line = (format_timestamp (now mo) @ '' ['' @ ESC # ''['' @
        level_colour lvl @ ''m'' @ toUpperCase (level_name lvl) @ ESC # ''[0m]'') @
        ESC # ''[35m['' @ ?p @ '']'' @ ESC # ''[0m'' @ '': '' @ msg"
        by (fact shape)
    qed
  qed
  have bare: "line = format_timestamp (now mo) @ '' ['' @ ESC # ''['' @ level_colour lvl @ ''m'' @
      toUpperCase (level_name lvl) @ ESC # ''[0m]'' @ '': '' @ msg" if "?p = []"
    using that line by (simp add: printf_line Let_def)
  from should origin bracket bare show ?thesis
    by (simp add: Let_def)
qed

theorem file_path_bracket_witness:
  "(\<exists>pre. logger_log (posix_runtime ''/srv/app'')
       (init_module (env \<lparr> LOG_LEVEL = Some ''warn'', ENABLE_DEBUG = None \<rparr>))
       route_moment Error ''down'' =
     [pre @ ESC # ''[35m[dist/routes/root.js]'' @ ESC # ''[0m: down'']) \<and>
   logger_log (posix_runtime ''/srv/app'')
       (init_module (env \<lparr> LOG_LEVEL = Some ''warn'', ENABLE_DEBUG = None \<rparr>))
       cwd_moment Warn ''down'' =
     [''2026-11-03 09:05:00 ['' @ ESC # ''[33mWARN'' @ ESC # ''[0m]: down'']"
proof -
  let ?rt = "posix_runtime ''/srv/app''"
  let ?pe = "\<lparr> LOG_LEVEL = Some ''warn'', ENABLE_DEBUG = None \<rparr>"
  let ?line = "printf ?rt True (stack route_moment)
       \<lparr> timestamp = Some (format_timestamp (now route_moment)),
         level = level_name Error, message = ''down'' \<rparr>"
  let ?bare = "printf ?rt True (stack cwd_moment)
       \<lparr> timestamp = Some (format_timestamp (now cwd_moment)),
         level = level_name Warn, message = ''down'' \<rparr>"
  have thr: "logLevel (debugging (env ?pe)) = ''warn''"
    by (simp add: env_def js_or_def)
  have out: "logger_log ?rt (init_module (env ?pe)) route_moment Error ''down'' = [?line]"
    by (simp add: logger_log_init thr transport_write_def npm_levels_def fileNameLogLevels_def)
  then have emitted: "?line \<in> set (logger_log ?rt (init_module (env ?pe)) route_moment Error ''down'')"
    by simp
  have out': "logger_log ?rt (init_module (env ?pe)) cwd_moment Warn ''down'' = [?bare]"
    by (simp add: logger_log_init thr transport_write_def npm_levels_def fileNameLogLevels_def)
  then have emitted': "?bare \<in> set (logger_log ?rt (init_module (env ?pe)) cwd_moment Warn ''down'')"
    by simp
  have path: "getCallerFile (path_relative ?rt) (process_cwd ?rt) (stack route_moment) =
      ''dist/routes/root.js''"
    by (simp add: posix_runtime_def route_moment_def route_stack_def posix_relative_def
          posix_resolve_def)
  have path': "getCallerFile (path_relative ?rt) (process_cwd ?rt) (stack cwd_moment) = []"
    by (simp add: posix_runtime_def cwd_moment_def cwd_stack_def posix_relative_def
          posix_resolve_def)
  have stamp': "format_timestamp (now cwd_moment) = ''2026-11-03 09:05:00''"
    by (simp add: cwd_moment_def format_timestamp_def pad_def show_nat.simps digit_char_def)
  have upper: "toUpperCase (level_name Warn) = ''WARN''"
    by (simp add: toUpperCase_def upper_char_def)
  from file_path_bracket [OF emitted] have
    "\<exists>pre. ?line = pre @ ESC # ''[35m['' @ ''dist/routes/root.js'' @ '']'' @ ESC # ''[0m'' @ '': '' @ ''down''"
    by (simp only: path Let_def) simp
  moreover from file_path_bracket [OF emitted'] have
    "?bare = ''2026-11-03 09:05:00 ['' @ ESC # ''[33mWARN'' @ ESC # ''[0m]: down''"
    by (simp only: path' stamp' upper Let_def) simp
  ultimately show ?thesis
    using out out' by simp
qed

text \<open>
  With the caller's file name resolving to the working directory, \<^verbatim>\<open>path.relative\<close>
  gives the empty string, which is falsy: the emitted line has no file-path bracket,
  against C4 as stated.
\<close>

theorem file_path_bracket_dropped_counterexample:
  "logger_log (posix_runtime ''/srv/app'')
       (init_module (env \<lparr> LOG_LEVEL = Some ''error'', ENABLE_DEBUG = Some ''true'' \<rparr>))
       \<lparr> now = \<lparr> year = 2026, month = 11, day = 3, hour = 9, minute = 5, second = 0 \<rparr>,
         stack = [Some \<lparr> fileName = Some ''/srv/app/dist/util/logger.js'' \<rparr>,
                  Some \<lparr> fileName = Some ''/srv/app'' \<rparr>] \<rparr>
       Error ''x'' =
     [''2026-11-03 09:05:00 ['' @ ESC # ''[31mERROR'' @ ESC # ''[0m]: x'']"
proof -
  let ?rt = "posix_runtime ''/srv/app''"
  let ?pe = "\<lparr> LOG_LEVEL = Some ''error'', ENABLE_DEBUG = Some ''true'' \<rparr>"
  let ?tr = "[Some \<lparr> fileName = Some ''/srv/app/dist/util/logger.js'' \<rparr>,
                  Some \<lparr> fileName = Some ''/srv/app'' \<rparr>]"
  let ?c = "\<lparr> year = 2026, month = 11, day = 3, hour = 9, minute = 5, second = 0 \<rparr>"
  have path: "path_relative ?rt (process_cwd ?rt) ''/srv/app'' = []"
    by (simp add: posix_runtime_def posix_relative_def posix_resolve_def)
  have thr: "logLevel (debugging (env ?pe)) = ''error''"
    by (simp add: env_def js_or_def)
  have stamp: "format_timestamp ?c = ''2026-11-03 09:05:00''"
    by (simp add: format_timestamp_def pad_def show_nat.simps digit_char_def)
  have line: "printf ?rt True ?tr
       \<lparr> timestamp = Some ''2026-11-03 09:05:00'', level = ''error'', message = ''x'' \<rparr> =
       ''2026-11-03 09:05:00 ['' @ ESC # ''[31mERROR'' @ ESC # ''[0m]: x''"
    by (simp add: printf_def Let_def path js_or_def toUpperCase_def upper_char_def)
  with stamp show ?thesis
    by (simp add: logger_log_init thr transport_write_def npm_levels_def fileNameLogLevels_def)
qed

text \<open>
  C8. Two calls of the same operation with the same message from the same call site (the
  same stack), under the same configuration, write alike: both nothing, or one line each,
  and the two lines are the two timestamps followed by one and the same text. When the
  logger is enabled and the level passes the threshold, it is the latter.
\<close>

theorem repeated_call_lines:
  assumes "stack mo1 = stack mo2"
  shows "\<exists>rest.
     (logger_log rt (init_module (env pe)) mo1 lvl msg = [] \<and>
      logger_log rt (init_module (env pe)) mo2 lvl msg = [] \<or>
      logger_log rt (init_module (env pe)) mo1 lvl msg = [format_timestamp (now mo1) @ rest] \<and>
      logger_log rt (init_module (env pe)) mo2 lvl msg = [format_timestamp (now mo2) @ rest]) \<and>
     (ENABLE_DEBUG pe \<noteq> Some ''false'' \<and> logLevel (debugging (env pe)) = level_name th \<and>
      severity_rank lvl \<le> severity_rank th \<longrightarrow>
      logger_log rt (init_module (env pe)) mo1 lvl msg = [format_timestamp (now mo1) @ rest] \<and>
      logger_log rt (init_module (env pe)) mo2 lvl msg = [format_timestamp (now mo2) @ rest])"
proof -
  let ?b = "logLevel (debugging (env pe)) \<in> set fileNameLogLevels"
  let ?rest = "printf rt ?b (stack mo2) \<lparr> timestamp = None, level = level_name lvl, message = msg \<rparr>"
  let ?t = "\<lparr> silent = (ENABLE_DEBUG pe = Some ''false'') \<rparr>"
  have call: "logger_log rt (init_module (env pe)) mo lvl msg =
      transport_write (logLevel (debugging (env pe))) ?t (level_name lvl)
        (format_timestamp (now mo) @ ?rest)" if "stack mo = stack mo2" for mo
    using that by (simp add: logger_log_init printf_timestamp)
  have alike: "transport_write thr t l ln = [] \<and> transport_write thr t l ln2 = [] \<or>
      transport_write thr t l ln = [ln] \<and> transport_write thr t l ln2 = [ln2]" for thr t l ln ln2
    by (simp add: transport_write_def split: option.splits)
  have pass: "transport_write (level_name th) ?t (level_name lvl) ln = [ln]"
    if "ENABLE_DEBUG pe \<noteq> Some ''false''" and "severity_rank lvl \<le> severity_rank th" for ln
    using that by (simp add: transport_write_def npm_levels_level_name)
  show ?thesis
  proof (intro exI [of _ ?rest] conjI impI)
    show "logger_log rt (init_module (env pe)) mo1 lvl msg = [] \<and>
      logger_log rt (init_module (env pe)) mo2 lvl msg = [] \<or>
      logger_log rt (init_module (env pe)) mo1 lvl msg = [format_timestamp (now mo1) @ ?rest] \<and>
      logger_log rt (init_module (env pe)) mo2 lvl msg = [format_timestamp (now mo2) @ ?rest]"
      using alike [of "logLevel (debugging (env pe))" ?t "level_name lvl"
          "format_timestamp (now mo1) @ ?rest" "format_timestamp (now mo2) @ ?rest"]
      by (simp only: call [OF assms] call [OF refl])
  next
    assume h: "ENABLE_DEBUG pe \<noteq> Some ''false'' \<and> logLevel (debugging (env pe)) = level_name th \<and>
      severity_rank lvl \<le> severity_rank th"
    then show "logger_log rt (init_module (env pe)) mo1 lvl msg = [format_timestamp (now mo1) @ ?rest]"
      using pass [of "format_timestamp (now mo1) @ ?rest"]
      by (simp only: call [OF assms]) simp
    from h show "logger_log rt (init_module (env pe)) mo2 lvl msg = [format_timestamp (now mo2) @ ?rest]"
      using pass [of "format_timestamp (now mo2) @ ?rest"]
      by (simp only: call [OF refl]) simp
  qed
qed

theorem repeated_call_lines_witness:
  "\<exists>rest.
     logger_log (posix_runtime ''/srv/app'')
       (init_module (env \<lparr> LOG_LEVEL = Some ''info'', ENABLE_DEBUG = None \<rparr>))
       route_moment Info ''hello'' = [format_timestamp (now route_moment) @ rest] \<and>
     logger_log (posix_runtime ''/srv/app'')
       (init_module (env \<lparr> LOG_LEVEL = Some ''info'', ENABLE_DEBUG = None \<rparr>))
       \<lparr> now = \<lparr> year = 2026, month = 11, day = 3, hour = 9, minute = 5, second = 7 \<rparr>,
         stack = route_stack \<rparr> Info ''hello'' =
       [format_timestamp \<lparr> year = 2026, month = 11, day = 3, hour = 9, minute = 5, second = 7 \<rparr>
        @ rest]"
proof -
  let ?rt = "posix_runtime ''/srv/app''"
  let ?pe = "\<lparr> LOG_LEVEL = Some ''info'', ENABLE_DEBUG = None \<rparr>"
  let ?later = "\<lparr> now = \<lparr> year = 2026, month = 11, day = 3, hour = 9, minute = 5, second = 7 \<rparr>,
         stack = route_stack \<rparr>"
  have same: "stack route_moment = stack ?later"
    by (simp add: route_moment_def)
  have on: "ENABLE_DEBUG ?pe \<noteq> Some ''false'' \<and> logLevel (debugging (env ?pe)) = level_name Info \<and>
      severity_rank Info \<le> severity_rank Info"
    by (simp add: env_def js_or_def)
  from repeated_call_lines [OF same, of ?rt ?pe Info "''hello''" Info] on
  show ?thesis
    by auto
qed

end
